theory Spec2Isabelle
  imports Main "HOL-Library.Multiset"
begin

section \<open>Bingo evaluator\<close>

text \<open>
  \<^verbatim>\<open>calculateBingoCount(selected: number[]): number\<close>.  The JavaScript \<^verbatim>\<open>Set\<close> built from
  the argument is an \<open>int set\<close>; \<^verbatim>\<open>effectiveSelected.add(12)\<close> is \<open>insert 12\<close>.  Each
  of the counting loops runs its index over 0, 1, 2, 3, 4; an inner loop that clears
  the flag \<^verbatim>\<open>full\<close> and breaks at the first missing cell leaves \<^verbatim>\<open>full\<close> true exactly
  when every cell it visits is present, which is \<open>list_all\<close> over the indices.
\<close>

definition loop5 :: "int list" where
  "loop5 = [0, 1, 2, 3, 4]"

definition row_full :: "int set \<Rightarrow> int \<Rightarrow> bool" where
  "row_full effectiveSelected r = list_all (\<lambda>c. r * 5 + c \<in> effectiveSelected) loop5"

definition col_full :: "int set \<Rightarrow> int \<Rightarrow> bool" where
  "col_full effectiveSelected c = list_all (\<lambda>r. r * 5 + c \<in> effectiveSelected) loop5"

definition d1 :: "int set \<Rightarrow> bool" where
  "d1 effectiveSelected = list_all (\<lambda>i. i * 6 \<in> effectiveSelected) loop5"

definition d2 :: "int set \<Rightarrow> bool" where
  "d2 effectiveSelected = list_all (\<lambda>i. (i + 1) * 4 \<in> effectiveSelected) loop5"

definition calculateBingoCount :: "int list \<Rightarrow> nat" where
  "calculateBingoCount selected =
     (let effectiveSelected = insert 12 (set selected) in
        length (filter (row_full effectiveSelected) loop5)
      + length (filter (col_full effectiveSelected) loop5)
      + (if d1 effectiveSelected then 1 else 0)
      + (if d2 effectiveSelected then 1 else 0))"

text \<open>
  The evaluator as the specification words it: \<open>countCompletedLines\<close> on a set of
  selected indices, with index 12 always taken as selected; five rows
  \<open>{r*5+0 .. r*5+4}\<close>, five columns \<open>{c, c+5, c+10, c+15, c+20}\<close> and the two
  diagonals.
\<close>

definition countCompletedLines :: "int set \<Rightarrow> nat" where
  "countCompletedLines S =
     (let S' = insert 12 S in
        card {r \<in> {0..<5}. {r * 5 + 0 .. r * 5 + 4} \<subseteq> S'}
      + card {c \<in> {0..<5}. {c, c + 5, c + 10, c + 15, c + 20} \<subseteq> S'}
      + (if {0, 6, 12, 18, 24} \<subseteq> S' then 1 else 0)
      + (if {4, 8, 12, 16, 20} \<subseteq> S' then 1 else 0))"

section \<open>Game state\<close>

text \<open>
  \<^verbatim>\<open>interface BoardState\<close>; \<^verbatim>\<open>prediction: string[] | null\<close> is an option (an empty
  array is truthy in JavaScript, so only \<open>None\<close> is falsy).  \<^verbatim>\<open>gameState\<close> is a
  \<^verbatim>\<open>Record<string, BoardState>\<close>, a map from member names.  The module-level variables
  \<^verbatim>\<open>members\<close>, \<^verbatim>\<open>groups\<close>, \<^verbatim>\<open>gameState\<close> and \<^verbatim>\<open>finalLineup\<close> form the server state.
\<close>

record BoardState =
  board :: "string list"
  selectedIndices :: "int list"
  prediction :: "string list option"

record server_state =
  members :: "string list"
  groups :: "string list"
  gameState :: "string \<rightharpoonup> BoardState"
  finalLineup :: "string list"
  inherited_prediction :: "string \<rightharpoonup> string list"

text \<open>
  \<^verbatim>\<open>gameState\<close> is created by the object literal \<^verbatim>\<open>{}\<close>, so its prototype is
  \<^verbatim>\<open>Object.prototype\<close> and the lookup \<^verbatim>\<open>gameState[memberName]\<close> of a handler finds, for
  a name that is not a key of \<^verbatim>\<open>gameState\<close> itself, what \<^verbatim>\<open>Object.prototype\<close> holds under
  that name: a function for each of its method names, and \<^verbatim>\<open>Object.prototype\<close> itself
  for \<^verbatim>\<open>__proto__\<close>.  None of these objects has a \<^verbatim>\<open>selectedIndices\<close> property; a
  \<^verbatim>\<open>prediction\<close> property they get only from \<^verbatim>\<open>submitPrediction\<close>, and the field
  \<open>inherited_prediction\<close> records it under the name the object was reached by.  A
  \<^verbatim>\<open>prediction\<close> put on \<^verbatim>\<open>Object.prototype\<close> (the name \<^verbatim>\<open>__proto__\<close>) is inherited by
  every one of these objects, and makes \<^verbatim>\<open>prediction\<close> itself a name that
  \<^verbatim>\<open>gameState\<close> inherits.  Every \<^verbatim>\<open>BoardState\<close> has a \<^verbatim>\<open>prediction\<close> property of its own
  (\<^verbatim>\<open>null\<close> at least, start-up sees to it), so it never inherits one.
\<close>

definition object_prototype_keys :: "string list" where
  "object_prototype_keys =
     [''constructor'', ''__defineGetter__'', ''__defineSetter__'', ''hasOwnProperty'',
      ''__lookupGetter__'', ''__lookupSetter__'', ''isPrototypeOf'',
      ''propertyIsEnumerable'', ''toString'', ''valueOf'', ''__proto__'',
      ''toLocaleString'']"

text \<open>
  For a name that is not a key of \<^verbatim>\<open>gameState\<close>: whether \<^verbatim>\<open>gameState[name]\<close> is an
  inherited object (truthy) rather than \<^verbatim>\<open>undefined\<close>, and whether the \<^verbatim>\<open>prediction\<close>
  property read from that object is truthy.
\<close>

definition inherited :: "server_state \<Rightarrow> string \<Rightarrow> bool" where
  "inherited st name =
     (name \<in> set object_prototype_keys
      \<or> (name = ''prediction'' \<and> inherited_prediction st ''__proto__'' \<noteq> None))"

definition inherited_has_prediction :: "server_state \<Rightarrow> string \<Rightarrow> bool" where
  "inherited_has_prediction st name =
     (inherited_prediction st name \<noteq> None \<or> inherited_prediction st ''__proto__'' \<noteq> None)"

section \<open>Visibility filter\<close>

text \<open>
  The three object literals \<^verbatim>\<open>predictionData\<close> can be bound to in \<^verbatim>\<open>getPublicState\<close>:
  \<^verbatim>\<open>{ hasPredicted }\<close>, \<^verbatim>\<open>{ hasPredicted, prediction, score }\<close> (game over) and
  \<^verbatim>\<open>{ hasPredicted: true, prediction }\<close> (the requesting user's own entry).
\<close>

text \<open>
  \<open>Flag\<close> carries \<^verbatim>\<open>hasPredicted\<close>; \<open>Scored\<close> carries \<^verbatim>\<open>hasPredicted\<close>, \<^verbatim>\<open>prediction\<close>
  (possibly \<^verbatim>\<open>null\<close>) and \<^verbatim>\<open>score\<close>; \<open>Own\<close> carries \<^verbatim>\<open>hasPredicted\<close> and \<^verbatim>\<open>prediction\<close>.
\<close>

datatype predictionData =
    Flag bool
  | Scored bool "string list option" nat
  | Own bool "string list"

text \<open>The \<^verbatim>\<open>prediction\<close> key of the object, when the object has one (it may hold \<^verbatim>\<open>null\<close>).\<close>

fun prediction_key :: "predictionData \<Rightarrow> string list option option" where
  "prediction_key (Flag b) = None"
| "prediction_key (Scored b p s) = Some p"
| "prediction_key (Own b p) = Some (Some p)"

text \<open>
  \<^verbatim>\<open>state.prediction.filter(p => finalLineup.includes(p)).length\<close>, and 0 when
  \<^verbatim>\<open>state.prediction\<close> is \<^verbatim>\<open>null\<close>.
\<close>

definition score :: "string list \<Rightarrow> string list option \<Rightarrow> nat" where
  "score lineup pred =
     (case pred of
        None \<Rightarrow> 0
      | Some ps \<Rightarrow> length (filter (\<lambda>p. p \<in> set lineup) ps))"

text \<open>
  The body of the loop of \<^verbatim>\<open>getPublicState\<close> that computes \<^verbatim>\<open>predictionData\<close> for one
  entry; \<^verbatim>\<open>requestingUser\<close> is optional (\<open>None\<close> when the function is called without
  an argument, and then no member name equals it).
\<close>

definition predictionData_of ::
  "string list \<Rightarrow> string option \<Rightarrow> string \<Rightarrow> BoardState \<Rightarrow> predictionData" where
  "predictionData_of lineup requestingUser member state =
     (if length lineup > 0 then
        Scored (prediction state \<noteq> None) (prediction state) (score lineup (prediction state))
      else if Some member = requestingUser \<and> prediction state \<noteq> None then
        Own True (the (prediction state))
      else Flag (prediction state \<noteq> None))"

text \<open>
  One entry of \<^verbatim>\<open>publicState\<close>: \<^verbatim>\<open>{...state, bingoCount, prediction: predictionData}\<close>.
  The spread copies \<^verbatim>\<open>board\<close> and \<^verbatim>\<open>selectedIndices\<close>; its \<^verbatim>\<open>prediction\<close> key is
  overwritten by the later \<^verbatim>\<open>prediction: predictionData\<close>.
\<close>

record publicBoardState =
  pub_board :: "string list"
  pub_selectedIndices :: "int list"
  bingoCount :: nat
  pub_prediction :: predictionData

definition getPublicState ::
  "server_state \<Rightarrow> string option \<Rightarrow> (string \<rightharpoonup> publicBoardState)" where
  "getPublicState st requestingUser =
     (\<lambda>member.
        case gameState st member of
          None \<Rightarrow> None
        | Some state \<Rightarrow>
            Some \<lparr> pub_board = board state,
                   pub_selectedIndices = selectedIndices state,
                   bingoCount = calculateBingoCount (selectedIndices state),
                   pub_prediction =
                     predictionData_of (finalLineup st) requestingUser member state \<rparr>)"

section \<open>Socket handlers\<close>

text \<open>
  What a handler does besides changing the state, in the order the statements run:
  \<^verbatim>\<open>saveGameState()\<close> (a synchronous \<^verbatim>\<open>writeFileSync\<close> of the whole \<^verbatim>\<open>gameState\<close>),
  the \<^verbatim>\<open>writeFileSync\<close> of the lineup file, \<^verbatim>\<open>io.emit\<close> (to every connection) and
  \<^verbatim>\<open>socket.emit\<close> (to the one connection).  Both writes sit in a \<^verbatim>\<open>try\<close> whose
  \<^verbatim>\<open>catch\<close> only logs, so the statements after them always run.  An exception that
  leaves a handler is caught nowhere: it is the last thing the handler does, and the
  last thing the process does.
\<close>

datatype error = TypeError

datatype message =
    Init "string list" "string list" "string \<rightharpoonup> publicBoardState" "string list"
  | PredictionUpdate string bool
  | GameOver "string list" "string \<rightharpoonup> publicBoardState"
  | UpdateState string "int list" nat
  | BingoAnnouncement string nat

datatype effect =
    SaveGameState "string \<rightharpoonup> BoardState"
  | WriteLineupFile "string list"
  | IoEmit message
  | SocketEmit message
  | Uncaught error

text \<open>The \<^verbatim>\<open>init\<close> sent from the connection callback itself, with no requesting user.\<close>

definition connection :: "server_state \<Rightarrow> effect list" where
  "connection st =
     [SocketEmit (Init (members st) (groups st) (getPublicState st None) (finalLineup st))]"

definition join :: "server_state \<Rightarrow> string \<Rightarrow> effect list" where
  "join st name =
     [SocketEmit (Init (members st) (groups st) (getPublicState st (Some name)) (finalLineup st))]"

text \<open>
  The guard \<^verbatim>\<open>gameState[memberName] && !gameState[memberName].prediction\<close> also passes
  for an inherited object without a \<^verbatim>\<open>prediction\<close>; the assignment then puts the picks
  on that object, and the save and the broadcast follow as for a member.
\<close>

definition submitPrediction ::
  "server_state \<Rightarrow> string \<Rightarrow> string list \<Rightarrow> server_state \<times> effect list" where
  "submitPrediction st memberName pred =
     (case gameState st memberName of
        None \<Rightarrow>
          if inherited st memberName then
            if \<not> inherited_has_prediction st memberName then
              if length pred = 12 then
                (let st' = st\<lparr>inherited_prediction :=
                                (inherited_prediction st)(memberName \<mapsto> pred)\<rparr>
                 in (st', [SaveGameState (gameState st'),
                           IoEmit (PredictionUpdate memberName True)]))
              else (st, [])
            else (st, [])
          else (st, [])
      | Some bs \<Rightarrow>
          if prediction bs = None then
            if length pred = 12 then
              (let st' = st\<lparr>gameState := (gameState st)(memberName \<mapsto> bs\<lparr>prediction := Some pred\<rparr>)\<rparr>
               in (st', [SaveGameState (gameState st'),
                         IoEmit (PredictionUpdate memberName True)]))
            else (st, [])
          else (st, []))"

text \<open>
  \<^verbatim>\<open>data.lineup\<close> may be missing, hence the option; the guard is
  \<^verbatim>\<open>data.lineup && data.lineup.length > 0\<close> and nothing else.
\<close>

definition submitFinalLineup ::
  "server_state \<Rightarrow> string list option \<Rightarrow> server_state \<times> effect list" where
  "submitFinalLineup st lineup =
     (case lineup of
        None \<Rightarrow> (st, [])
      | Some l \<Rightarrow>
          if length l > 0 then
            (let st' = st\<lparr>finalLineup := l\<rparr>
             in (st', [WriteLineupFile (finalLineup st'),
                       IoEmit (GameOver (finalLineup st') (getPublicState st' None))]))
          else (st, []))"

text \<open>
  \<^verbatim>\<open>Array.prototype.indexOf\<close>: the first position holding the value, or -1; and
  \<^verbatim>\<open>splice(k, 1)\<close>, which removes the element at position \<open>k\<close>.  The \<^verbatim>\<open>index\<close> of the
  payload is an integer of any sign and size: the handler applies no test to it.
\<close>

fun indexOf :: "'a list \<Rightarrow> 'a \<Rightarrow> int" where
  "indexOf [] x = - 1"
| "indexOf (y # ys) x =
     (if y = x then 0
      else (let k = indexOf ys x in if k = - 1 then - 1 else k + 1))"

definition splice1 :: "'a list \<Rightarrow> int \<Rightarrow> 'a list" where
  "splice1 xs k = take (nat k) xs @ drop (nat k + 1) xs"

text \<open>
  For an inherited object \<^verbatim>\<open>memberState\<close> is truthy and \<^verbatim>\<open>memberState.selectedIndices\<close>
  is \<^verbatim>\<open>undefined\<close>: \<^verbatim>\<open>calculateBingoCount(undefined)\<close> returns (the \<^verbatim>\<open>Set\<close> of
  \<^verbatim>\<open>undefined\<close> is empty), and the next statement, \<^verbatim>\<open>.indexOf\<close> on \<^verbatim>\<open>undefined\<close>, throws a
  \<^verbatim>\<open>TypeError\<close> before anything is changed or emitted.
\<close>

definition toggleCell ::
  "server_state \<Rightarrow> string \<Rightarrow> int \<Rightarrow> server_state \<times> effect list" where
  "toggleCell st memberName index =
     (case gameState st memberName of
        None \<Rightarrow> if inherited st memberName then (st, [Uncaught TypeError]) else (st, [])
      | Some memberState \<Rightarrow>
          (let oldBingoCount = calculateBingoCount (selectedIndices memberState);
               selectedIdx = indexOf (selectedIndices memberState) index;
               sel' = (if selectedIdx > - 1
                       then splice1 (selectedIndices memberState) selectedIdx
                       else selectedIndices memberState @ [index]);
               newBingoCount = calculateBingoCount sel';
               st' = st\<lparr>gameState :=
                          (gameState st)(memberName \<mapsto> memberState\<lparr>selectedIndices := sel'\<rparr>)\<rparr>
           in (st',
               [IoEmit (UpdateState memberName sel' newBingoCount)]
               @ (if newBingoCount > oldBingoCount
                  then [IoEmit (BingoAnnouncement memberName newBingoCount)] else [])
               @ [SaveGameState (gameState st')])))"

text \<open>The events a client can send, and the server processing them one at a time.\<close>

datatype client_event =
    Connect
  | Join string
  | SubmitPrediction string "string list"
  | SubmitFinalLineup "string list option"
  | ToggleCell string int
  | Disconnect

fun handle :: "server_state \<Rightarrow> client_event \<Rightarrow> server_state \<times> effect list" where
  "handle st Connect = (st, connection st)"
| "handle st (Join name) = (st, join st name)"
| "handle st (SubmitPrediction memberName pred) = submitPrediction st memberName pred"
| "handle st (SubmitFinalLineup lineup) = submitFinalLineup st lineup"
| "handle st (ToggleCell memberName index) = toggleCell st memberName index"
| "handle st Disconnect = (st, [])"

text \<open>
  The state the process is in after a sequence of events; the events that follow an
  uncaught exception are not processed any more.
\<close>

fun uncaught :: "effect \<Rightarrow> bool" where
  "uncaught (Uncaught err) = True"
| "uncaught e = False"

fun run :: "server_state \<Rightarrow> client_event list \<Rightarrow> server_state" where
  "run st [] = st"
| "run st (e # es) =
     (if list_ex uncaught (snd (handle st e)) then fst (handle st e)
      else run (fst (handle st e)) es)"

section \<open>Board generation for a new member\<close>

text \<open>
  The \<^verbatim>\<open>else\<close> branch of \<^verbatim>\<open>members.forEach\<close> at start-up.  The Fisher-Yates loop runs
  \<open>i\<close> from \<^verbatim>\<open>currentTerms.length - 1\<close> down to 1 and swaps positions \<open>i\<close> and \<open>j\<close>,
  where \<^verbatim>\<open>j = Math.floor(Math.random() * (i + 1))\<close>; the random source is the
  parameter \<open>rnd\<close>, giving the \<open>j\<close> drawn at each \<open>i\<close> (a value in \<open>0..i\<close>).
\<close>

definition swap :: "'a list \<Rightarrow> nat \<Rightarrow> nat \<Rightarrow> 'a list" where
  "swap xs i j = xs[i := xs ! j, j := xs ! i]"

fun fisher_yates :: "(nat \<Rightarrow> nat) \<Rightarrow> nat \<Rightarrow> 'a list \<Rightarrow> 'a list" where
  "fisher_yates rnd 0 xs = xs"
| "fisher_yates rnd (Suc i) xs = fisher_yates rnd i (swap xs (Suc i) (rnd (Suc i)))"

definition new_member_board :: "(nat \<Rightarrow> nat) \<Rightarrow> string list \<Rightarrow> string list" where
  "new_member_board rnd terms =
     (let currentTerms = terms;
          boardTerms = (if length currentTerms \<ge> 24
                        then take 24 (fisher_yates rnd (length currentTerms - 1) currentTerms)
                        else currentTerms)
      in if length boardTerms \<ge> 12
         then take 12 boardTerms @ [''FREE SPACE''] @ drop 12 boardTerms
         else boardTerms @ [''FREE SPACE''])"

definition new_member_state :: "(nat \<Rightarrow> nat) \<Rightarrow> string list \<Rightarrow> BoardState" where
  "new_member_state rnd terms =
     \<lparr> board = new_member_board rnd terms, selectedIndices = [], prediction = None \<rparr>"

section \<open>Auxiliary notions for the properties\<close>

text \<open>
  The state invariant on selections: no member's \<^verbatim>\<open>selectedIndices\<close> array holds a
  value twice.
\<close>

definition no_duplicates :: "server_state \<Rightarrow> bool" where
  "no_duplicates st = (\<forall>m bs. gameState st m = Some bs \<longrightarrow> distinct (selectedIndices bs))"

text \<open>
  What the select/deselect branch of \<^verbatim>\<open>toggleCell\<close> amounts to on the array: the first
  occurrence is removed when there is one, otherwise the index is appended.
\<close>

definition toggled :: "int list \<Rightarrow> int \<Rightarrow> int list" where
  "toggled sel i = (if i \<in> set sel then remove1 i sel else sel @ [i])"

text \<open>
  The prediction stored for a name: \<open>None\<close> when the name has no \<^verbatim>\<open>BoardState\<close>,
  \<open>Some None\<close> when its \<^verbatim>\<open>prediction\<close> is \<^verbatim>\<open>null\<close>.
\<close>

definition stored_prediction :: "server_state \<Rightarrow> string \<Rightarrow> string list option option" where
  "stored_prediction st m = map_option prediction (gameState st m)"

text \<open>An event other than a \<^verbatim>\<open>submitPrediction\<close> of twelve picks for the member.\<close>

fun short_for :: "string \<Rightarrow> client_event \<Rightarrow> bool" where
  "short_for m (SubmitPrediction m' p) = (m' = m \<longrightarrow> length p \<noteq> 12)"
| "short_for m e = True"

text \<open>
  The order of writes and broadcasts in what a handler does: \<open>written_first\<close> holds when
  no \<^verbatim>\<open>io.emit\<close> comes before the first write to disk.
\<close>

fun is_write :: "effect \<Rightarrow> bool" where
  "is_write (SaveGameState g) = True"
| "is_write (WriteLineupFile l) = True"
| "is_write e = False"

fun is_broadcast :: "effect \<Rightarrow> bool" where
  "is_broadcast (IoEmit msg) = True"
| "is_broadcast e = False"

fun written_first :: "effect list \<Rightarrow> bool" where
  "written_first [] = True"
| "written_first (e # es) =
     (if is_write e then True else if is_broadcast e then False else written_first es)"

subsection \<open>Concrete servers\<close>

text \<open>A random source that always draws \<open>j = 0\<close>, and a pool of 25 different terms.\<close>

definition rnd_zero :: "nat \<Rightarrow> nat" where
  "rnd_zero i = 0"

definition ex_terms :: "string list" where
  "ex_terms = [''t01'', ''t02'', ''t03'', ''t04'', ''t05'', ''t06'', ''t07'', ''t08'',
               ''t09'', ''t10'', ''t11'', ''t12'', ''t13'', ''t14'', ''t15'', ''t16'',
               ''t17'', ''t18'', ''t19'', ''t20'', ''t21'', ''t22'', ''t23'', ''t24'',
               ''t25'']"

text \<open>
  Two members with the same 25-cell board, nothing selected, predicted or revealed;
  the same server after \<open>ann\<close> has predicted; and after the reveal.  The picks are not
  all taken from \<open>groups\<close>.
\<close>

definition ex_board_state :: BoardState where
  "ex_board_state =
     \<lparr> board = [''t01'', ''t02'', ''t03'', ''t04'', ''t05'', ''t06'', ''t07'', ''t08'',
                ''t09'', ''t10'', ''t11'', ''t12'', ''FREE SPACE'', ''t13'', ''t14'',
                ''t15'', ''t16'', ''t17'', ''t18'', ''t19'', ''t20'', ''t21'', ''t22'',
                ''t23'', ''t24''],
       selectedIndices = [], prediction = None \<rparr>"

definition ex_state :: server_state where
  "ex_state = \<lparr> members = [''ann'', ''bob''], groups = [''g1'', ''g2'', ''g3''],
                 gameState = [''ann'' \<mapsto> ex_board_state, ''bob'' \<mapsto> ex_board_state],
                 finalLineup = [], inherited_prediction = Map.empty \<rparr>"

definition ex_picks :: "string list" where
  "ex_picks = [''g1'', ''g2'', ''x3'', ''x4'', ''x5'', ''x6'', ''x7'', ''x8'', ''x9'',
               ''x10'', ''x11'', ''x12'']"

definition ex_picks2 :: "string list" where
  "ex_picks2 = [''g3'', ''g3'', ''g3'', ''g3'', ''g3'', ''g3'', ''g3'', ''g3'', ''g3'',
                ''g3'', ''g3'', ''g3'']"

definition ex_predicted :: server_state where
  "ex_predicted =
     ex_state\<lparr>gameState :=
       (gameState ex_state)(''ann'' \<mapsto> ex_board_state\<lparr>prediction := Some ex_picks\<rparr>)\<rparr>"

definition ex_revealed :: server_state where
  "ex_revealed = ex_predicted\<lparr>finalLineup := [''g1'', ''g3'']\<rparr>"

section \<open>The bingo evaluator counts completed lines\<close>

lemma loop5_set: "set loop5 = {0..<5}"
  unfolding loop5_def by auto

lemma loop5_distinct: "distinct loop5"
  unfolding loop5_def by simp

lemma count_filter_loop5: "length (filter P loop5) = card {r \<in> {0..<5}. P r}"
proof -
  have "length (filter P loop5) = card ({r. P r} \<inter> set loop5)"
    using loop5_distinct by (rule distinct_length_filter)
  also have "{r. P r} \<inter> set loop5 = {r \<in> {0..<5}. P r}"
    unfolding loop5_set by auto
  finally show ?thesis .
qed

lemma row_full_iff: "row_full S r \<longleftrightarrow> {r * 5 + 0 .. r * 5 + 4} \<subseteq> S"
proof -
  have "{r * 5 + 0 .. r * 5 + 4} = {r * 5 + 0, r * 5 + 1, r * 5 + 2, r * 5 + 3, r * 5 + 4}"
    by auto
  then show ?thesis
    by (simp add: row_full_def loop5_def)
qed

lemma col_full_iff: "col_full S c \<longleftrightarrow> {c, c + 5, c + 10, c + 15, c + 20} \<subseteq> S"
  by (simp add: col_full_def loop5_def add.commute)

lemma d1_iff: "d1 S \<longleftrightarrow> {0, 6, 12, 18, 24} \<subseteq> S"
  by (simp add: d1_def loop5_def)

lemma d2_iff: "d2 S \<longleftrightarrow> {4, 8, 12, 16, 20} \<subseteq> S"
  by (simp add: d2_def loop5_def)

lemma calculateBingoCount_refines:
  "calculateBingoCount selected = countCompletedLines (set selected)"
  by (simp add: calculateBingoCount_def countCompletedLines_def Let_def count_filter_loop5
      row_full_iff col_full_iff d1_iff d2_iff)

lemma length_filter_loop5_le: "length (filter P loop5) \<le> 5"
  using length_filter_le [of P loop5] by (simp add: loop5_def)

lemma calculateBingoCount_le: "calculateBingoCount selected \<le> 12"
  using length_filter_loop5_le [of "row_full (insert 12 (set selected))"]
    length_filter_loop5_le [of "col_full (insert 12 (set selected))"]
  by (simp add: calculateBingoCount_def Let_def)

lemma calculateBingoCount_set: "set a = set b \<Longrightarrow> calculateBingoCount a = calculateBingoCount b"
  by (simp add: calculateBingoCount_def)

lemmas bingo_eval =
  calculateBingoCount_def Let_def loop5_def row_full_def col_full_def d1_def d2_def

lemma bingo_row0: "calculateBingoCount [0, 1, 2, 3, 4] = 1"
  by (simp add: bingo_eval)

lemma bingo_col0: "calculateBingoCount [0, 5, 10, 15, 20] = 1"
  by (simp add: bingo_eval)

lemma bingo_diag1: "calculateBingoCount [0, 6, 12, 18, 24] = 1"
  by (simp add: bingo_eval)

lemma bingo_diag2: "calculateBingoCount [4, 8, 12, 16, 20] = 1"
  by (simp add: bingo_eval)

lemma bingo_empty: "calculateBingoCount [] = 0"
  by (simp add: bingo_eval)

text \<open>
  C5: \<open>calculateBingoCount\<close> returns the number of completed lines among the five
  rows, five columns and two diagonals of the 5x5 grid with index 12 always taken as
  selected (it agrees with \<open>countCompletedLines\<close> on the set of its input);
  \<open>countCompletedLines S = countCompletedLines (S \<union> {12})\<close> for every \<open>S\<close>, and adding
  12 to the input list changes nothing; the result depends only on the set of the
  indices, not on order or repetitions; it is at most 12; and the four single lines
  give 1 while the empty selection gives 0.
\<close>

theorem calculateBingoCount_correct:
  "calculateBingoCount selected = countCompletedLines (set selected)
   \<and> countCompletedLines S = countCompletedLines (S \<union> {12})
   \<and> calculateBingoCount selected = calculateBingoCount (12 # selected)
   \<and> (set a = set b \<longrightarrow> calculateBingoCount a = calculateBingoCount b)
   \<and> calculateBingoCount selected \<le> 12
   \<and> calculateBingoCount [0, 1, 2, 3, 4] = 1
   \<and> calculateBingoCount [0, 5, 10, 15, 20] = 1
   \<and> calculateBingoCount [0, 6, 12, 18, 24] = 1
   \<and> calculateBingoCount [4, 8, 12, 16, 20] = 1
   \<and> calculateBingoCount [] = 0"
proof -
  have "countCompletedLines S = countCompletedLines (S \<union> {12})"
    by (simp add: countCompletedLines_def)
  moreover have "calculateBingoCount selected = calculateBingoCount (12 # selected)"
    by (simp add: calculateBingoCount_def)
  ultimately show ?thesis
    using calculateBingoCount_refines [of selected] calculateBingoCount_le [of selected]
      calculateBingoCount_set [of a b] bingo_row0 bingo_col0 bingo_diag1 bingo_diag2 bingo_empty
    by blast
qed

theorem calculateBingoCount_correct_witness:
  "set [4, 0, 4, 12 :: int] = set [0, 4, 12]
   \<and> calculateBingoCount [4, 0, 4, 12] = calculateBingoCount [0, 4, 12]"
proof -
  have h: "set [4, 0, 4, 12 :: int] = set [0, 4, 12]" by auto
  from calculateBingoCount_correct [where a = "[4, 0, 4, 12]" and b = "[0, 4, 12]"]
  have "set [4, 0, 4, 12 :: int] = set [0, 4, 12]
        \<longrightarrow> calculateBingoCount [4, 0, 4, 12] = calculateBingoCount [0, 4, 12]"
    by blast
  with h show ?thesis by blast
qed

section \<open>Which handlers return\<close>

lemma submitFinalLineup_returns: "\<not> list_ex uncaught (snd (submitFinalLineup st l))"
  by (simp add: submitFinalLineup_def Let_def split: option.splits)

lemma submitPrediction_returns: "\<not> list_ex uncaught (snd (submitPrediction st m p))"
  by (simp add: submitPrediction_def Let_def split: option.splits)

lemma toggleCell_throws_iff:
  "list_ex uncaught (snd (toggleCell st m i)) \<longleftrightarrow> gameState st m = None \<and> inherited st m"
  by (simp add: toggleCell_def Let_def split: option.splits)

lemma toggleCell_throws_state: "list_ex uncaught (snd (toggleCell st m i)) \<Longrightarrow> fst (toggleCell st m i) = st"
  by (simp add: toggleCell_def Let_def split: option.splits if_splits)

lemma connection_returns: "\<not> list_ex uncaught (connection st)"
  by (simp add: connection_def)

lemma join_returns: "\<not> list_ex uncaught (join st name)"
  by (simp add: join_def)

lemmas handlers_return =
  submitFinalLineup_returns submitPrediction_returns connection_returns join_returns

section \<open>The reveal\<close>

lemma submitFinalLineup_lineup:
  "finalLineup (fst (submitFinalLineup st lineup)) =
     (case lineup of None \<Rightarrow> finalLineup st | Some l \<Rightarrow> if l = [] then finalLineup st else l)"
  by (simp add: submitFinalLineup_def Let_def split: option.splits)

lemma submitPrediction_lineup: "finalLineup (fst (submitPrediction st m p)) = finalLineup st"
  by (simp add: submitPrediction_def Let_def split: option.splits)

lemma toggleCell_lineup: "finalLineup (fst (toggleCell st m i)) = finalLineup st"
  by (simp add: toggleCell_def Let_def split: option.splits)

lemma handle_lineup_nonempty: "finalLineup st \<noteq> [] \<Longrightarrow> finalLineup (fst (handle st e)) \<noteq> []"
  by (cases e)
     (simp_all add: submitFinalLineup_lineup submitPrediction_lineup toggleCell_lineup
        split: option.splits)

lemma run_lineup_nonempty: "finalLineup st \<noteq> [] \<Longrightarrow> finalLineup (run st es) \<noteq> []"
  by (induction es arbitrary: st) (simp_all add: handle_lineup_nonempty)

text \<open>
  What the handler guarantees: a \<^verbatim>\<open>submitFinalLineup\<close> whose lineup is missing or
  empty is a silent no-op (no state change, nothing written, nothing emitted); every
  non-empty lineup is accepted and becomes \<^verbatim>\<open>finalLineup\<close>; and once \<^verbatim>\<open>finalLineup\<close> is
  non-empty it is non-empty after every later sequence of events.
\<close>

lemma submitFinalLineup_overwrites:
  "submitFinalLineup st None = (st, [])
   \<and> submitFinalLineup st (Some []) = (st, [])
   \<and> (l \<noteq> [] \<longrightarrow> finalLineup (fst (submitFinalLineup st (Some l))) = l)
   \<and> (finalLineup st \<noteq> [] \<longrightarrow> finalLineup (run st es) \<noteq> [])"
  by (simp add: submitFinalLineup_def Let_def run_lineup_nonempty)

text \<open>
  C1 asks that the reveal is single-shot: an empty lineup is a silent no-op (it is, see
  above), and a \<^verbatim>\<open>finalLineup\<close> once set is never changed by a later
  \<^verbatim>\<open>submitFinalLineup\<close>.  The client refuses to open the admin panel once results are
  in ("Results already submitted!") and tells the admin that the reveal cannot be
  undone, but the server handler does not look at the current \<^verbatim>\<open>finalLineup\<close>: after
  \<^verbatim>\<open>submitFinalLineup\<close> with the lineup \<open>[A]\<close> has set it, a second
  \<^verbatim>\<open>submitFinalLineup\<close> with \<open>[B]\<close> changes it to \<open>[B]\<close>.
\<close>

theorem submitFinalLineup_not_single_shot:
  "finalLineup (run ex_state [SubmitFinalLineup (Some [''A''])]) = [''A'']
   \<and> finalLineup (run ex_state [SubmitFinalLineup (Some [''A'']),
                                 SubmitFinalLineup (Some [''B''])]) = [''B'']"
  by (simp add: submitFinalLineup_lineup submitFinalLineup_returns)

section \<open>Toggling a cell\<close>

lemma indexOf_absent: "x \<notin> set xs \<Longrightarrow> indexOf xs x = - 1"
  by (induction xs) (auto simp: Let_def)

lemma indexOf_present: "x \<in> set xs \<Longrightarrow> indexOf xs x \<ge> 0"
  by (induction xs) (auto simp: Let_def)

lemma splice1_indexOf: "x \<in> set xs \<Longrightarrow> splice1 xs (indexOf xs x) = remove1 x xs"
proof (induction xs)
  case Nil
  then show ?case by simp
next
  case (Cons y ys)
  show ?case
  proof (cases "y = x")
    case True
    then show ?thesis by (simp add: splice1_def)
  next
    case False
    with Cons.prems have mem: "x \<in> set ys" by simp
    from indexOf_present [OF mem] have k: "0 \<le> indexOf ys x" .
    then have "nat (indexOf ys x + 1) = Suc (nat (indexOf ys x))" by simp
    with False k Cons.IH [OF mem] show ?thesis
      by (simp add: splice1_def Let_def)
  qed
qed

text \<open>The handler on a known member, with the array operations read as \<open>toggled\<close>.\<close>

lemma toggleCell_present:
  "gameState st m = Some bs \<Longrightarrow>
   toggleCell st m i =
     (st\<lparr>gameState := (gameState st)(m \<mapsto> bs\<lparr>selectedIndices := toggled (selectedIndices bs) i\<rparr>)\<rparr>,
      [IoEmit (UpdateState m (toggled (selectedIndices bs) i)
                 (calculateBingoCount (toggled (selectedIndices bs) i)))]
      @ (if calculateBingoCount (toggled (selectedIndices bs) i)
            > calculateBingoCount (selectedIndices bs)
         then [IoEmit (BingoAnnouncement m (calculateBingoCount (toggled (selectedIndices bs) i)))]
         else [])
      @ [SaveGameState ((gameState st)(m \<mapsto> bs\<lparr>selectedIndices := toggled (selectedIndices bs) i\<rparr>))])"
proof (cases "i \<in> set (selectedIndices bs)")
  case True
  assume g: "gameState st m = Some bs"
  from True indexOf_present [OF True] have "indexOf (selectedIndices bs) i > - 1" by simp
  with True g show ?thesis
    by (simp add: toggleCell_def Let_def toggled_def splice1_indexOf)
next
  case False
  assume g: "gameState st m = Some bs"
  from False g show ?thesis
    by (simp add: toggleCell_def Let_def toggled_def indexOf_absent)
qed

lemma toggleCell_absent:
  "gameState st m = None \<Longrightarrow> \<not> inherited st m \<Longrightarrow> toggleCell st m i = (st, [])"
  by (simp add: toggleCell_def)

text \<open>
  A name that \<^verbatim>\<open>gameState\<close> only inherits makes the handler throw, with nothing changed
  and nothing emitted; \<open>constructor\<close> is such a name on the example server.
\<close>

lemma toggleCell_inherited_throws:
  "gameState st m = None \<Longrightarrow> inherited st m \<Longrightarrow> toggleCell st m i = (st, [Uncaught TypeError])"
  by (simp add: toggleCell_def)

lemma toggleCell_constructor_throws:
  "toggleCell ex_state ''constructor'' 3 = (ex_state, [Uncaught TypeError])"
  by (simp add: toggleCell_def ex_state_def inherited_def object_prototype_keys_def)

lemma toggled_distinct: "distinct sel \<Longrightarrow> distinct (toggled sel i)"
  by (simp add: toggled_def)

lemma toggled_member:
  "distinct sel \<Longrightarrow> k \<in> set (toggled sel i) \<longleftrightarrow> (if k = i then i \<notin> set sel else k \<in> set sel)"
  by (auto simp: toggled_def)

lemma toggleCell_no_duplicates: "no_duplicates st \<Longrightarrow> no_duplicates (fst (toggleCell st m i))"
proof (cases "gameState st m")
  case None
  assume "no_duplicates st"
  with None show ?thesis by (simp add: toggleCell_def)
next
  case (Some bs)
  assume "no_duplicates st"
  with Some show ?thesis
    by (auto simp: toggleCell_present no_duplicates_def toggled_distinct)
qed

lemma submitPrediction_no_duplicates:
  "no_duplicates st \<Longrightarrow> no_duplicates (fst (submitPrediction st m p))"
  by (auto simp: submitPrediction_def no_duplicates_def Let_def split: option.splits)

lemma submitFinalLineup_no_duplicates:
  "no_duplicates st \<Longrightarrow> no_duplicates (fst (submitFinalLineup st l))"
  by (auto simp: submitFinalLineup_def no_duplicates_def Let_def split: option.splits)

lemma handle_no_duplicates: "no_duplicates st \<Longrightarrow> no_duplicates (fst (handle st e))"
  by (cases e)
     (simp_all add: toggleCell_no_duplicates submitPrediction_no_duplicates
        submitFinalLineup_no_duplicates)

lemma run_no_duplicates: "no_duplicates st \<Longrightarrow> no_duplicates (run st es)"
  by (induction es arbitrary: st) (simp_all add: handle_no_duplicates)

lemma ex_state_ann: "gameState ex_state ''ann'' = Some ex_board_state"
  by (simp add: ex_state_def)

lemma ex_state_no_duplicates: "no_duplicates ex_state"
  by (simp add: no_duplicates_def ex_state_def ex_board_state_def)

text \<open>
  C2, as stated, fails: the handler never compares the index with a range.  With
  nothing selected, \<^verbatim>\<open>toggleCell\<close> for \<open>ann\<close> and index 99 stores 99 in
  \<^verbatim>\<open>selectedIndices\<close> and broadcasts the \<^verbatim>\<open>updateState\<close>.
\<close>

theorem toggleCell_out_of_range_accepted:
  "map_option selectedIndices (gameState (fst (toggleCell ex_state ''ann'' 99)) ''ann'')
     = Some [99]
   \<and> hd (snd (toggleCell ex_state ''ann'' 99)) = IoEmit (UpdateState ''ann'' [99] 0)"
proof -
  have t: "toggled [] 99 = [99]" by (simp add: toggled_def)
  have s: "selectedIndices ex_board_state = []" by (simp add: ex_board_state_def)
  have c: "calculateBingoCount [99] = 0" by (simp add: bingo_eval)
  show ?thesis
    by (simp add: toggleCell_present [OF ex_state_ann] s t c)
qed

text \<open>
  C2, amended: \<^verbatim>\<open>toggleCell\<close> for a name that is neither a key of \<^verbatim>\<open>gameState\<close> nor a
  name \<^verbatim>\<open>gameState\<close> inherits is a silent no-op (no state change, no broadcast); for a
  member with a \<^verbatim>\<open>BoardState\<close> every index, inside or outside 0..24, is accepted: on a
  duplicate-free \<^verbatim>\<open>selectedIndices\<close> the membership of that index is flipped and the
  membership of every other index is kept, the new array is stored for the member and
  nothing else changes, and the handler broadcasts \<^verbatim>\<open>updateState\<close> with the new array
  and its bingo count, then \<^verbatim>\<open>bingoAnnouncement\<close> exactly when the count has risen,
  and saves.  After any sequence of events from a state whose \<^verbatim>\<open>selectedIndices\<close>
  arrays are duplicate-free, every member's \<^verbatim>\<open>selectedIndices\<close> is duplicate-free.
\<close>

theorem toggleCell_flips_any_index:
  "(gameState st m = None \<and> \<not> inherited st m \<longrightarrow> toggleCell st m i = (st, []))
   \<and> (gameState st m = Some bs \<and> distinct (selectedIndices bs) \<longrightarrow>
        (\<exists>sel'. toggleCell st m i =
                  (st\<lparr>gameState := (gameState st)(m \<mapsto> bs\<lparr>selectedIndices := sel'\<rparr>)\<rparr>,
                   [IoEmit (UpdateState m sel' (calculateBingoCount sel'))]
                   @ (if calculateBingoCount sel' > calculateBingoCount (selectedIndices bs)
                      then [IoEmit (BingoAnnouncement m (calculateBingoCount sel'))] else [])
                   @ [SaveGameState ((gameState st)(m \<mapsto> bs\<lparr>selectedIndices := sel'\<rparr>))])
               \<and> (i \<in> set sel' \<longleftrightarrow> i \<notin> set (selectedIndices bs))
               \<and> (\<forall>k. k \<noteq> i \<longrightarrow> (k \<in> set sel' \<longleftrightarrow> k \<in> set (selectedIndices bs)))))
   \<and> (no_duplicates st \<longrightarrow> no_duplicates (run st es))"
proof (intro conjI impI)
  assume "gameState st m = None \<and> \<not> inherited st m"
  then show "toggleCell st m i = (st, [])" by (simp add: toggleCell_absent)
next
  assume h: "gameState st m = Some bs \<and> distinct (selectedIndices bs)"
  let ?sel = "toggled (selectedIndices bs) i"
  from h have g: "gameState st m = Some bs" by simp
  have "toggleCell st m i =
          (st\<lparr>gameState := (gameState st)(m \<mapsto> bs\<lparr>selectedIndices := ?sel\<rparr>)\<rparr>,
           [IoEmit (UpdateState m ?sel (calculateBingoCount ?sel))]
           @ (if calculateBingoCount ?sel > calculateBingoCount (selectedIndices bs)
              then [IoEmit (BingoAnnouncement m (calculateBingoCount ?sel))] else [])
           @ [SaveGameState ((gameState st)(m \<mapsto> bs\<lparr>selectedIndices := ?sel\<rparr>))])"
    using g by (rule toggleCell_present)
  moreover from h have "i \<in> set ?sel \<longleftrightarrow> i \<notin> set (selectedIndices bs)"
    by (simp add: toggled_member)
  moreover from h have "\<forall>k. k \<noteq> i \<longrightarrow> (k \<in> set ?sel \<longleftrightarrow> k \<in> set (selectedIndices bs))"
    by (simp add: toggled_member)
  ultimately show "\<exists>sel'. toggleCell st m i =
                  (st\<lparr>gameState := (gameState st)(m \<mapsto> bs\<lparr>selectedIndices := sel'\<rparr>)\<rparr>,
                   [IoEmit (UpdateState m sel' (calculateBingoCount sel'))]
                   @ (if calculateBingoCount sel' > calculateBingoCount (selectedIndices bs)
                      then [IoEmit (BingoAnnouncement m (calculateBingoCount sel'))] else [])
                   @ [SaveGameState ((gameState st)(m \<mapsto> bs\<lparr>selectedIndices := sel'\<rparr>))])
               \<and> (i \<in> set sel' \<longleftrightarrow> i \<notin> set (selectedIndices bs))
               \<and> (\<forall>k. k \<noteq> i \<longrightarrow> (k \<in> set sel' \<longleftrightarrow> k \<in> set (selectedIndices bs)))"
    by (intro exI [of _ ?sel] conjI)
next
  assume "no_duplicates st"
  then show "no_duplicates (run st es)" by (rule run_no_duplicates)
qed

theorem toggleCell_flips_any_index_witness:
  "gameState ex_state ''zoe'' = None \<and> \<not> inherited ex_state ''zoe''
   \<and> toggleCell ex_state ''zoe'' 3 = (ex_state, [])
   \<and> gameState ex_state ''ann'' = Some ex_board_state
   \<and> distinct (selectedIndices ex_board_state)
   \<and> (\<exists>sel'. toggleCell ex_state ''ann'' 99 =
                (ex_state\<lparr>gameState :=
                   (gameState ex_state)(''ann'' \<mapsto> ex_board_state\<lparr>selectedIndices := sel'\<rparr>)\<rparr>,
                 [IoEmit (UpdateState ''ann'' sel' (calculateBingoCount sel'))]
                 @ (if calculateBingoCount sel' > calculateBingoCount (selectedIndices ex_board_state)
                    then [IoEmit (BingoAnnouncement ''ann'' (calculateBingoCount sel'))] else [])
                 @ [SaveGameState
                      ((gameState ex_state)(''ann'' \<mapsto> ex_board_state\<lparr>selectedIndices := sel'\<rparr>))])
             \<and> 99 \<in> set sel')
   \<and> no_duplicates ex_state
   \<and> no_duplicates (run ex_state [ToggleCell ''ann'' 3, ToggleCell ''ann'' 99,
                                   ToggleCell ''constructor'' 3, ToggleCell ''ann'' 3])"
proof -
  have h1: "gameState ex_state ''zoe'' = None \<and> \<not> inherited ex_state ''zoe''"
    by (simp add: ex_state_def inherited_def object_prototype_keys_def)
  have h2: "gameState ex_state ''ann'' = Some ex_board_state \<and> distinct (selectedIndices ex_board_state)"
    by (simp add: ex_state_def ex_board_state_def)
  have h3: "(99::int) \<notin> set (selectedIndices ex_board_state)"
    by (simp add: ex_board_state_def)
  note t1 = toggleCell_flips_any_index [of ex_state "''zoe''" 3 ex_board_state "[]"]
  note t2 = toggleCell_flips_any_index [of ex_state "''ann''" 99 ex_board_state
      "[ToggleCell ''ann'' 3, ToggleCell ''ann'' 99, ToggleCell ''constructor'' 3,
        ToggleCell ''ann'' 3]"]
  from t1 [THEN conjunct1, THEN mp, OF h1]
  have c1: "toggleCell ex_state ''zoe'' 3 = (ex_state, [])" .
  from t2 [THEN conjunct2, THEN conjunct1, THEN mp, OF h2]
  obtain sel' where s1: "toggleCell ex_state ''ann'' 99 =
                (ex_state\<lparr>gameState :=
                   (gameState ex_state)(''ann'' \<mapsto> ex_board_state\<lparr>selectedIndices := sel'\<rparr>)\<rparr>,
                 [IoEmit (UpdateState ''ann'' sel' (calculateBingoCount sel'))]
                 @ (if calculateBingoCount sel' > calculateBingoCount (selectedIndices ex_board_state)
                    then [IoEmit (BingoAnnouncement ''ann'' (calculateBingoCount sel'))] else [])
                 @ [SaveGameState
                      ((gameState ex_state)(''ann'' \<mapsto> ex_board_state\<lparr>selectedIndices := sel'\<rparr>))])"
    and s2: "99 \<in> set sel' \<longleftrightarrow> 99 \<notin> set (selectedIndices ex_board_state)"
    by blast
  from s2 h3 have s3: "99 \<in> set sel'" by simp
  from s1 s3 have c2: "\<exists>sel'. toggleCell ex_state ''ann'' 99 =
                (ex_state\<lparr>gameState :=
                   (gameState ex_state)(''ann'' \<mapsto> ex_board_state\<lparr>selectedIndices := sel'\<rparr>)\<rparr>,
                 [IoEmit (UpdateState ''ann'' sel' (calculateBingoCount sel'))]
                 @ (if calculateBingoCount sel' > calculateBingoCount (selectedIndices ex_board_state)
                    then [IoEmit (BingoAnnouncement ''ann'' (calculateBingoCount sel'))] else [])
                 @ [SaveGameState
                      ((gameState ex_state)(''ann'' \<mapsto> ex_board_state\<lparr>selectedIndices := sel'\<rparr>))])
             \<and> 99 \<in> set sel'"
    by (intro exI [of _ sel'] conjI)
  from t2 [THEN conjunct2, THEN conjunct2, THEN mp, OF ex_state_no_duplicates]
  have c3: "no_duplicates (run ex_state [ToggleCell ''ann'' 3, ToggleCell ''ann'' 99,
                                        ToggleCell ''constructor'' 3, ToggleCell ''ann'' 3])" .
  from h1 c1 h2 c2 ex_state_no_duplicates c3 show ?thesis by (intro conjI) simp_all
qed

lemma toggled_twice_mset: "distinct sel \<Longrightarrow> mset (toggled (toggled sel i) i) = mset sel"
  by (auto simp: toggled_def)

lemma toggled_twice_new: "i \<notin> set sel \<Longrightarrow> toggled (toggled sel i) i = sel"
  by (simp add: toggled_def remove1_append)

text \<open>
  C8: for a member with a \<^verbatim>\<open>BoardState\<close> (its \<^verbatim>\<open>selectedIndices\<close> duplicate-free, as the
  data model has it) and every index, two \<^verbatim>\<open>toggleCell\<close> in succession give back the
  server state with the member's selection holding the same indices as before: the
  same set, each index once, the very same array when the index was not selected (a
  selected index is removed and then appended, so it ends up last); the bingo count is
  the original one, and nothing else in the state has changed.
\<close>

theorem toggleCell_twice_restores:
  "gameState st m = Some bs \<and> distinct (selectedIndices bs) \<longrightarrow>
     (\<exists>sel2. fst (toggleCell (fst (toggleCell st m i)) m i)
               = st\<lparr>gameState := (gameState st)(m \<mapsto> bs\<lparr>selectedIndices := sel2\<rparr>)\<rparr>
            \<and> mset sel2 = mset (selectedIndices bs)
            \<and> set sel2 = set (selectedIndices bs)
            \<and> calculateBingoCount sel2 = calculateBingoCount (selectedIndices bs)
            \<and> (i \<notin> set (selectedIndices bs) \<longrightarrow> sel2 = selectedIndices bs))"
proof
  assume h: "gameState st m = Some bs \<and> distinct (selectedIndices bs)"
  let ?sel = "selectedIndices bs"
  let ?sel2 = "toggled (toggled ?sel i) i"
  let ?st1 = "fst (toggleCell st m i)"
  from h have st1:
    "?st1 = st\<lparr>gameState := (gameState st)(m \<mapsto> bs\<lparr>selectedIndices := toggled ?sel i\<rparr>)\<rparr>"
    by (simp add: toggleCell_present)
  then have g1: "gameState ?st1 m = Some (bs\<lparr>selectedIndices := toggled ?sel i\<rparr>)"
    by simp
  have st2: "fst (toggleCell ?st1 m i)
             = st\<lparr>gameState := (gameState st)(m \<mapsto> bs\<lparr>selectedIndices := ?sel2\<rparr>)\<rparr>"
    by (simp add: toggleCell_present [OF g1]) (simp add: st1)
  from h have ms: "mset ?sel2 = mset ?sel"
    by (simp add: toggled_twice_mset)
  then have se: "set ?sel2 = set ?sel"
    by (rule mset_eq_setD)
  then have bc: "calculateBingoCount ?sel2 = calculateBingoCount ?sel"
    by (rule calculateBingoCount_set)
  have nw: "i \<notin> set ?sel \<longrightarrow> ?sel2 = ?sel"
    by (simp add: toggled_twice_new)
  from st2 ms se bc nw
  show "\<exists>sel2. fst (toggleCell (fst (toggleCell st m i)) m i)
               = st\<lparr>gameState := (gameState st)(m \<mapsto> bs\<lparr>selectedIndices := sel2\<rparr>)\<rparr>
            \<and> mset sel2 = mset (selectedIndices bs)
            \<and> set sel2 = set (selectedIndices bs)
            \<and> calculateBingoCount sel2 = calculateBingoCount (selectedIndices bs)
            \<and> (i \<notin> set (selectedIndices bs) \<longrightarrow> sel2 = selectedIndices bs)"
    by (intro exI [of _ ?sel2] conjI)
qed

theorem toggleCell_twice_restores_witness:
  "gameState ex_state ''ann'' = Some ex_board_state
   \<and> distinct (selectedIndices ex_board_state)
   \<and> fst (toggleCell (fst (toggleCell ex_state ''ann'' 7)) ''ann'' 7) = ex_state"
proof -
  have h: "gameState ex_state ''ann'' = Some ex_board_state \<and> distinct (selectedIndices ex_board_state)"
    by (simp add: ex_state_def ex_board_state_def)
  have n: "(7::int) \<notin> set (selectedIndices ex_board_state)"
    by (simp add: ex_board_state_def)
  have "(gameState ex_state)(''ann'' \<mapsto> ex_board_state) = gameState ex_state"
    using ex_state_ann by (rule map_upd_triv)
  then have same: "ex_state\<lparr>gameState := (gameState ex_state)(''ann'' \<mapsto> ex_board_state)\<rparr> = ex_state"
    by simp
  from toggleCell_twice_restores [of ex_state "''ann''" ex_board_state 7] h
  have "\<exists>sel2. fst (toggleCell (fst (toggleCell ex_state ''ann'' 7)) ''ann'' 7)
               = ex_state\<lparr>gameState := (gameState ex_state)(''ann'' \<mapsto> ex_board_state\<lparr>selectedIndices := sel2\<rparr>)\<rparr>
            \<and> mset sel2 = mset (selectedIndices ex_board_state)
            \<and> set sel2 = set (selectedIndices ex_board_state)
            \<and> calculateBingoCount sel2 = calculateBingoCount (selectedIndices ex_board_state)
            \<and> (7 \<notin> set (selectedIndices ex_board_state) \<longrightarrow> sel2 = selectedIndices ex_board_state)"
    by (rule mp)
  with n have "fst (toggleCell (fst (toggleCell ex_state ''ann'' 7)) ''ann'' 7)
               = ex_state\<lparr>gameState := (gameState ex_state)(''ann'' \<mapsto> ex_board_state)\<rparr>"
    by auto
  with same h show ?thesis by simp
qed

section \<open>Order of the write and the broadcast\<close>

lemma submitPrediction_written_first: "written_first (snd (submitPrediction st m p))"
  by (simp add: submitPrediction_def Let_def split: option.splits)

lemma submitFinalLineup_written_first: "written_first (snd (submitFinalLineup st l))"
  by (simp add: submitFinalLineup_def Let_def split: option.splits)

lemma toggleCell_not_written_first:
  "gameState st m = Some bs \<Longrightarrow> \<not> written_first (snd (toggleCell st m i))"
  by (simp add: toggleCell_present)

text \<open>
  C6 asks that the write to disk comes before the broadcast in every accepted
  mutation.  \<^verbatim>\<open>submitPrediction\<close> and \<^verbatim>\<open>submitFinalLineup\<close> do so (the two lemmas
  above); \<^verbatim>\<open>toggleCell\<close> emits first and calls \<^verbatim>\<open>saveGameState\<close> last.  Here is what it
  does for \<open>ann\<close> and index 0 on the example server: the \<^verbatim>\<open>updateState\<close> broadcast,
  then the save.
\<close>

theorem toggleCell_broadcasts_before_save:
  "snd (toggleCell ex_state ''ann'' 0) =
     [IoEmit (UpdateState ''ann'' [0] 0),
      SaveGameState ((gameState ex_state)(''ann'' \<mapsto> ex_board_state\<lparr>selectedIndices := [0]\<rparr>))]
   \<and> \<not> written_first (snd (toggleCell ex_state ''ann'' 0))"
proof -
  have t: "toggled [] 0 = [0]"
    by (simp add: toggled_def)
  have s: "selectedIndices ex_board_state = []"
    by (simp add: ex_board_state_def)
  have c0: "calculateBingoCount [0] = 0" and c1: "calculateBingoCount [] = 0"
    by (simp_all add: bingo_eval)
  show ?thesis
    by (simp add: toggleCell_present [OF ex_state_ann] t s c0 c1)
qed

section \<open>The one-time prediction\<close>

lemma submitPrediction_rejected:
  "gameState st m = Some bs \<Longrightarrow> prediction bs \<noteq> None \<or> length p \<noteq> 12 \<Longrightarrow>
   submitPrediction st m p = (st, [])"
  by (auto simp: submitPrediction_def)

lemma submitPrediction_accepted:
  "gameState st m = Some bs \<Longrightarrow> prediction bs = None \<Longrightarrow> length p = 12 \<Longrightarrow>
   submitPrediction st m p =
     (st\<lparr>gameState := (gameState st)(m \<mapsto> bs\<lparr>prediction := Some p\<rparr>)\<rparr>,
      [SaveGameState ((gameState st)(m \<mapsto> bs\<lparr>prediction := Some p\<rparr>)),
       IoEmit (PredictionUpdate m True)])"
  by (simp add: submitPrediction_def Let_def)

text \<open>
  A name with no \<^verbatim>\<open>BoardState\<close> that \<^verbatim>\<open>gameState\<close> does not inherit is ignored; one it
  inherits passes the guard once: on the example server twelve picks for
  \<open>constructor\<close> are put on the inherited object, \<^verbatim>\<open>gameState\<close> is saved as it was and
  \<^verbatim>\<open>predictionUpdate\<close> is broadcast.  No member's entry is touched by either.
\<close>

lemma submitPrediction_absent:
  "gameState st m = None \<Longrightarrow> \<not> inherited st m \<Longrightarrow> submitPrediction st m p = (st, [])"
  by (simp add: submitPrediction_def)

lemma submitPrediction_constructor_accepted:
  "submitPrediction ex_state ''constructor'' ex_picks =
     (ex_state\<lparr>inherited_prediction := [''constructor'' \<mapsto> ex_picks]\<rparr>,
      [SaveGameState (gameState ex_state), IoEmit (PredictionUpdate ''constructor'' True)])"
  by (simp add: submitPrediction_def ex_state_def inherited_def inherited_has_prediction_def
      object_prototype_keys_def ex_picks_def Let_def)

lemma submitPrediction_gameState_unowned:
  "gameState st m = None \<Longrightarrow> gameState (fst (submitPrediction st m p)) = gameState st"
  by (simp add: submitPrediction_def Let_def)

lemma submitPrediction_stored:
  "stored_prediction (fst (submitPrediction st m' p)) m =
     (if m' = m \<and> stored_prediction st m = Some None \<and> length p = 12
      then Some (Some p) else stored_prediction st m)"
  by (auto simp: stored_prediction_def submitPrediction_def Let_def split: option.splits)

lemma toggleCell_stored: "stored_prediction (fst (toggleCell st m' i)) m = stored_prediction st m"
  by (auto simp: stored_prediction_def toggleCell_def Let_def split: option.splits)

lemma submitFinalLineup_stored:
  "stored_prediction (fst (submitFinalLineup st l)) m = stored_prediction st m"
  by (auto simp: stored_prediction_def submitFinalLineup_def Let_def split: option.splits)

lemma handle_stored_kept:
  "stored_prediction st m = Some (Some p) \<Longrightarrow>
   stored_prediction (fst (handle st e)) m = Some (Some p)"
  by (cases e) (simp_all add: submitPrediction_stored toggleCell_stored submitFinalLineup_stored)

lemma run_stored_kept:
  "stored_prediction st m = Some (Some p) \<Longrightarrow> stored_prediction (run st es) m = Some (Some p)"
  by (induction es arbitrary: st) (simp_all add: handle_stored_kept)

lemma handle_stored_absent:
  "stored_prediction st m = Some None \<Longrightarrow> short_for m e \<Longrightarrow>
   stored_prediction (fst (handle st e)) m = Some None"
  by (cases e) (auto simp: submitPrediction_stored toggleCell_stored submitFinalLineup_stored)

lemma run_stored_absent:
  "stored_prediction st m = Some None \<Longrightarrow> list_all (short_for m) es \<Longrightarrow>
   stored_prediction (run st es) m = Some None"
  by (induction es arbitrary: st) (simp_all add: handle_stored_absent)

text \<open>
  C3: for a member with a \<^verbatim>\<open>BoardState\<close>, a \<^verbatim>\<open>submitPrediction\<close> when a prediction is
  already stored, or with a picks list whose length is not 12, changes nothing and
  emits nothing; otherwise the picks are stored as they are (whatever \<^verbatim>\<open>groups\<close>
  holds), the state is saved and \<^verbatim>\<open>predictionUpdate\<close> is broadcast.  Hence after an
  accepted submission the stored prediction is that payload after every later sequence
  of events, a stored prediction never changes, and the prediction stays absent as long
  as no submission of length 12 is made for the member.
\<close>

theorem submitPrediction_one_time_lock:
  "(gameState st m = Some bs \<and> (prediction bs \<noteq> None \<or> length picks \<noteq> 12)
      \<longrightarrow> submitPrediction st m picks = (st, []))
   \<and> (gameState st m = Some bs \<and> prediction bs = None \<and> length picks = 12
      \<longrightarrow> submitPrediction st m picks =
            (st\<lparr>gameState := (gameState st)(m \<mapsto> bs\<lparr>prediction := Some picks\<rparr>)\<rparr>,
             [SaveGameState ((gameState st)(m \<mapsto> bs\<lparr>prediction := Some picks\<rparr>)),
              IoEmit (PredictionUpdate m True)]))
   \<and> (gameState st m = Some bs \<and> prediction bs = None \<and> length picks = 12
      \<longrightarrow> stored_prediction (run st (SubmitPrediction m picks # es)) m = Some (Some picks))
   \<and> (stored_prediction st m = Some (Some p)
      \<longrightarrow> stored_prediction (run st es) m = Some (Some p))
   \<and> (stored_prediction st m = Some None \<and> list_all (short_for m) es
      \<longrightarrow> stored_prediction (run st es) m = Some None)"
proof (intro conjI impI)
  assume h: "gameState st m = Some bs \<and> (prediction bs \<noteq> None \<or> length picks \<noteq> 12)"
  from h have "gameState st m = Some bs" and "prediction bs \<noteq> None \<or> length picks \<noteq> 12"
    by simp_all
  then show "submitPrediction st m picks = (st, [])"
    by (rule submitPrediction_rejected)
next
  assume "gameState st m = Some bs \<and> prediction bs = None \<and> length picks = 12"
  then show "submitPrediction st m picks =
            (st\<lparr>gameState := (gameState st)(m \<mapsto> bs\<lparr>prediction := Some picks\<rparr>)\<rparr>,
             [SaveGameState ((gameState st)(m \<mapsto> bs\<lparr>prediction := Some picks\<rparr>)),
              IoEmit (PredictionUpdate m True)])"
    by (simp add: submitPrediction_accepted)
next
  assume h: "gameState st m = Some bs \<and> prediction bs = None \<and> length picks = 12"
  then have "stored_prediction st m = Some None"
    by (simp add: stored_prediction_def)
  with h have "stored_prediction (fst (submitPrediction st m picks)) m = Some (Some picks)"
    by (simp add: submitPrediction_stored)
  then show "stored_prediction (run st (SubmitPrediction m picks # es)) m = Some (Some picks)"
    by (simp add: run_stored_kept)
next
  assume "stored_prediction st m = Some (Some p)"
  then show "stored_prediction (run st es) m = Some (Some p)"
    by (rule run_stored_kept)
next
  assume "stored_prediction st m = Some None \<and> list_all (short_for m) es"
  then show "stored_prediction (run st es) m = Some None"
    by (simp add: run_stored_absent)
qed

theorem submitPrediction_one_time_lock_witness:
  "gameState ex_state ''ann'' = Some ex_board_state
   \<and> prediction ex_board_state = None \<and> length ex_picks = 12 \<and> length [''g1''] \<noteq> (12::nat)
   \<and> submitPrediction ex_state ''ann'' [''g1''] = (ex_state, [])
   \<and> fst (submitPrediction ex_state ''ann'' ex_picks) = ex_predicted
   \<and> stored_prediction (run ex_state [SubmitPrediction ''ann'' ex_picks,
                                     SubmitPrediction ''ann'' ex_picks2]) ''ann''
       = Some (Some ex_picks)
   \<and> stored_prediction ex_predicted ''ann'' = Some (Some ex_picks)
   \<and> stored_prediction (run ex_predicted [SubmitPrediction ''ann'' ex_picks2]) ''ann''
       = Some (Some ex_picks)
   \<and> stored_prediction ex_state ''ann'' = Some None
   \<and> list_all (short_for ''ann'') [SubmitPrediction ''ann'' [''g1''],
                                   SubmitPrediction ''bob'' ex_picks]
   \<and> stored_prediction (run ex_state [SubmitPrediction ''ann'' [''g1''],
                                     SubmitPrediction ''bob'' ex_picks]) ''ann'' = Some None"
proof -
  have g: "gameState ex_state ''ann'' = Some ex_board_state" by (rule ex_state_ann)
  have n: "prediction ex_board_state = None" by (simp add: ex_board_state_def)
  have l: "length ex_picks = 12" by (simp add: ex_picks_def)
  have l1: "length [''g1''] \<noteq> (12::nat)" by simp
  have sp: "stored_prediction ex_predicted ''ann'' = Some (Some ex_picks)"
    by (simp add: stored_prediction_def ex_predicted_def)
  have sn: "stored_prediction ex_state ''ann'' = Some None"
    by (simp add: stored_prediction_def g n)
  have sh: "list_all (short_for ''ann'') [SubmitPrediction ''ann'' [''g1''],
                                         SubmitPrediction ''bob'' ex_picks]"
    by simp
  note t1 = submitPrediction_one_time_lock [of ex_state "''ann''" ex_board_state "[''g1'']"
      "[]" ex_picks]
  note t2 = submitPrediction_one_time_lock [of ex_state "''ann''" ex_board_state ex_picks
      "[SubmitPrediction ''ann'' ex_picks2]" ex_picks]
  note t3 = submitPrediction_one_time_lock [of ex_predicted "''ann''" ex_board_state ex_picks
      "[SubmitPrediction ''ann'' ex_picks2]" ex_picks]
  note t4 = submitPrediction_one_time_lock [of ex_state "''ann''" ex_board_state ex_picks
      "[SubmitPrediction ''ann'' [''g1''], SubmitPrediction ''bob'' ex_picks]" ex_picks]
  from t1 g l1 have c1: "submitPrediction ex_state ''ann'' [''g1''] = (ex_state, [])"
    by simp
  from t2 g n l have "submitPrediction ex_state ''ann'' ex_picks =
            (ex_state\<lparr>gameState := (gameState ex_state)(''ann'' \<mapsto> ex_board_state\<lparr>prediction := Some ex_picks\<rparr>)\<rparr>,
             [SaveGameState ((gameState ex_state)(''ann'' \<mapsto> ex_board_state\<lparr>prediction := Some ex_picks\<rparr>)),
              IoEmit (PredictionUpdate ''ann'' True)])"
    by simp
  then have c2: "fst (submitPrediction ex_state ''ann'' ex_picks) = ex_predicted"
    by (simp add: ex_predicted_def)
  from t2 g n l have c3: "stored_prediction (run ex_state [SubmitPrediction ''ann'' ex_picks,
      SubmitPrediction ''ann'' ex_picks2]) ''ann'' = Some (Some ex_picks)"
    by (elim conjE) simp
  from t3 sp have c4: "stored_prediction (run ex_predicted [SubmitPrediction ''ann'' ex_picks2])
      ''ann'' = Some (Some ex_picks)"
    by (elim conjE) simp
  from t4 sn sh have c5: "stored_prediction (run ex_state [SubmitPrediction ''ann'' [''g1''],
      SubmitPrediction ''bob'' ex_picks]) ''ann'' = Some None"
    by (elim conjE) simp
  from g n l l1 c1 c2 c3 sp c4 sn sh c5 show ?thesis by (intro conjI)
qed

section \<open>What a viewer is shown\<close>

lemma getPublicState_entry:
  "gameState st m = Some bs \<Longrightarrow>
   getPublicState st viewer m =
     Some \<lparr> pub_board = board bs, pub_selectedIndices = selectedIndices bs,
            bingoCount = calculateBingoCount (selectedIndices bs),
            pub_prediction = predictionData_of (finalLineup st) viewer m bs \<rparr>"
  by (simp add: getPublicState_def)

lemma predictionData_masked:
  "lineup = [] \<Longrightarrow> viewer \<noteq> Some m \<Longrightarrow>
   predictionData_of lineup viewer m bs = Flag (prediction bs \<noteq> None)"
  by (auto simp: predictionData_of_def)

lemma predictionData_revealed:
  "lineup \<noteq> [] \<Longrightarrow>
   predictionData_of lineup viewer m bs =
     Scored (prediction bs \<noteq> None) (prediction bs) (score lineup (prediction bs))"
  by (simp add: predictionData_of_def)

text \<open>
  Before the reveal the whole view of a viewer is the same for any two contents of
  another member's prediction, as long as both are present or both absent.
\<close>

lemma getPublicState_masks_contents:
  assumes "finalLineup st = []" and "gameState st m = Some bs" and "viewer \<noteq> Some m"
    and "(q = None) = (prediction bs = None)"
  shows "getPublicState (st\<lparr>gameState := (gameState st)(m \<mapsto> bs\<lparr>prediction := q\<rparr>)\<rparr>) viewer
         = getPublicState st viewer"
proof
  fix m'
  show "getPublicState (st\<lparr>gameState := (gameState st)(m \<mapsto> bs\<lparr>prediction := q\<rparr>)\<rparr>) viewer m'
        = getPublicState st viewer m'"
  proof (cases "m' = m")
    case True
    with assms show ?thesis
      by (simp add: getPublicState_def predictionData_masked)
  next
    case False
    then show ?thesis by (simp add: getPublicState_def split: option.splits)
  qed
qed

lemma ex_predicted_ann:
  "gameState ex_predicted ''ann'' = Some (ex_board_state\<lparr>prediction := Some ex_picks\<rparr>)"
  by (simp add: ex_predicted_def)

lemma ex_revealed_ann:
  "gameState ex_revealed ''ann'' = Some (ex_board_state\<lparr>prediction := Some ex_picks\<rparr>)"
  by (simp add: ex_revealed_def ex_predicted_def)

text \<open>
  C4: while \<^verbatim>\<open>finalLineup\<close> is empty, for every viewer (a name or none) and every
  member other than the viewer, the entry shown for that member carries only the
  boolean \<^verbatim>\<open>hasPredicted\<close> and no \<^verbatim>\<open>prediction\<close> key, and replacing the contents of that
  member's prediction (present by present, absent by absent) leaves the viewer's whole
  view unchanged; once \<^verbatim>\<open>finalLineup\<close> is non-empty, every viewer's entry for every
  member carries the member's stored prediction and a numeric score.
\<close>

theorem getPublicState_masks_predictions:
  "(finalLineup st = [] \<and> gameState st m = Some bs \<and> viewer \<noteq> Some m
      \<longrightarrow> map_option pub_prediction (getPublicState st viewer m)
            = Some (Flag (prediction bs \<noteq> None))
          \<and> map_option (prediction_key \<circ> pub_prediction) (getPublicState st viewer m)
            = Some None)
   \<and> (finalLineup st = [] \<and> gameState st m = Some bs \<and> viewer \<noteq> Some m
        \<and> (q = None) = (prediction bs = None)
      \<longrightarrow> getPublicState (st\<lparr>gameState := (gameState st)(m \<mapsto> bs\<lparr>prediction := q\<rparr>)\<rparr>) viewer
            = getPublicState st viewer)
   \<and> (finalLineup st \<noteq> [] \<and> gameState st m = Some bs
      \<longrightarrow> (\<exists>n. map_option pub_prediction (getPublicState st viewer m)
                  = Some (Scored (prediction bs \<noteq> None) (prediction bs) n)))"
proof (intro conjI impI)
  assume "finalLineup st = [] \<and> gameState st m = Some bs \<and> viewer \<noteq> Some m"
  then show "map_option pub_prediction (getPublicState st viewer m)
            = Some (Flag (prediction bs \<noteq> None))"
    by (simp add: getPublicState_entry predictionData_masked)
next
  assume "finalLineup st = [] \<and> gameState st m = Some bs \<and> viewer \<noteq> Some m"
  then show "map_option (prediction_key \<circ> pub_prediction) (getPublicState st viewer m)
            = Some None"
    by (simp add: getPublicState_entry predictionData_masked)
next
  assume h: "finalLineup st = [] \<and> gameState st m = Some bs \<and> viewer \<noteq> Some m
        \<and> (q = None) = (prediction bs = None)"
  from h have "finalLineup st = []" and "gameState st m = Some bs" and "viewer \<noteq> Some m"
    and "(q = None) = (prediction bs = None)"
    by simp_all
  then show "getPublicState (st\<lparr>gameState := (gameState st)(m \<mapsto> bs\<lparr>prediction := q\<rparr>)\<rparr>) viewer
            = getPublicState st viewer"
    by (rule getPublicState_masks_contents)
next
  assume "finalLineup st \<noteq> [] \<and> gameState st m = Some bs"
  then show "\<exists>n. map_option pub_prediction (getPublicState st viewer m)
                  = Some (Scored (prediction bs \<noteq> None) (prediction bs) n)"
    by (simp add: getPublicState_entry predictionData_revealed)
qed

theorem getPublicState_masks_predictions_witness:
  "finalLineup ex_predicted = []
   \<and> gameState ex_predicted ''ann'' = Some (ex_board_state\<lparr>prediction := Some ex_picks\<rparr>)
   \<and> Some ''bob'' \<noteq> Some ''ann''
   \<and> map_option pub_prediction (getPublicState ex_predicted (Some ''bob'') ''ann'')
       = Some (Flag True)
   \<and> getPublicState
       (ex_predicted\<lparr>gameState :=
          (gameState ex_predicted)(''ann'' \<mapsto> ex_board_state\<lparr>prediction := Some ex_picks2\<rparr>)\<rparr>)
       (Some ''bob'')
     = getPublicState ex_predicted (Some ''bob'')
   \<and> finalLineup ex_revealed \<noteq> []
   \<and> gameState ex_revealed ''ann'' = Some (ex_board_state\<lparr>prediction := Some ex_picks\<rparr>)
   \<and> (\<exists>n. map_option pub_prediction (getPublicState ex_revealed (Some ''bob'') ''ann'')
            = Some (Scored True (Some ex_picks) n))"
proof -
  let ?bs = "ex_board_state\<lparr>prediction := Some ex_picks\<rparr>"
  have f: "finalLineup ex_predicted = []" by (simp add: ex_predicted_def ex_state_def)
  have v: "Some ''bob'' \<noteq> Some ''ann''" by simp
  have r: "finalLineup ex_revealed \<noteq> []" by (simp add: ex_revealed_def)
  note t1 = getPublicState_masks_predictions
    [of ex_predicted "''ann''" ?bs "Some ''bob''" "Some ex_picks2"]
  note t2 = getPublicState_masks_predictions
    [of ex_revealed "''ann''" ?bs "Some ''bob''" "Some ex_picks2"]
  from t1 f ex_predicted_ann v
  have c1: "map_option pub_prediction (getPublicState ex_predicted (Some ''bob'') ''ann'')
       = Some (Flag True)"
    by (elim conjE) simp
  from t1 f ex_predicted_ann v
  have c2: "getPublicState
       (ex_predicted\<lparr>gameState :=
          (gameState ex_predicted)(''ann'' \<mapsto> ex_board_state\<lparr>prediction := Some ex_picks2\<rparr>)\<rparr>)
       (Some ''bob'')
     = getPublicState ex_predicted (Some ''bob'')"
    by (elim conjE) simp
  from t2 r ex_revealed_ann
  have c3: "\<exists>n. map_option pub_prediction (getPublicState ex_revealed (Some ''bob'') ''ann'')
            = Some (Scored True (Some ex_picks) n)"
    by (elim conjE) simp
  from f ex_predicted_ann v c1 c2 r ex_revealed_ann c3 show ?thesis by (intro conjI)
qed

section \<open>Scoring after the reveal\<close>

lemma score_positions: "score lineup (Some ps) = card {i. i < length ps \<and> ps ! i \<in> set lineup}"
  by (simp add: score_def length_filter_conv_card)

text \<open>
  C7, as stated, fails in its clause on duplicates: a predicted item is counted once
  for each time it occurs in the prediction.  With the lineup \<open>[A]\<close> and a prediction
  of twelve \<open>A\<close> (a payload \<^verbatim>\<open>submitPrediction\<close> accepts) the score is 12, more than the
  one entry the lineup has.
\<close>

theorem score_duplicates_overcount:
  "score [''A''] (Some (replicate 12 ''A'')) = 12
   \<and> \<not> score [''A''] (Some (replicate 12 ''A'')) \<le> length [''A'']"
  by (simp add: score_def)

text \<open>
  C7, amended: when \<^verbatim>\<open>finalLineup\<close> is non-empty, each member's presented score is the
  number of positions of the member's prediction whose item occurs somewhere in
  \<^verbatim>\<open>finalLineup\<close> (a membership test, not a positional match; an item repeated in the
  prediction is counted once for each repetition); a member with no prediction gets
  score 0.
\<close>

theorem score_counts_every_predicted_entry:
  "(finalLineup st \<noteq> [] \<and> gameState st m = Some bs
      \<longrightarrow> map_option pub_prediction (getPublicState st viewer m)
            = Some (Scored (prediction bs \<noteq> None) (prediction bs)
                      (score (finalLineup st) (prediction bs))))
   \<and> score lineup (Some ps) = card {i. i < length ps \<and> ps ! i \<in> set lineup}
   \<and> score lineup None = 0"
proof (intro conjI impI)
  assume "finalLineup st \<noteq> [] \<and> gameState st m = Some bs"
  then show "map_option pub_prediction (getPublicState st viewer m)
            = Some (Scored (prediction bs \<noteq> None) (prediction bs)
                      (score (finalLineup st) (prediction bs)))"
    by (simp add: getPublicState_entry predictionData_revealed)
next
  show "score lineup (Some ps) = card {i. i < length ps \<and> ps ! i \<in> set lineup}"
    by (rule score_positions)
next
  show "score lineup None = 0"
    by (simp add: score_def)
qed

theorem score_counts_every_predicted_entry_witness:
  "finalLineup ex_revealed \<noteq> []
   \<and> gameState ex_revealed ''ann'' = Some (ex_board_state\<lparr>prediction := Some ex_picks\<rparr>)
   \<and> map_option pub_prediction (getPublicState ex_revealed None ''ann'')
       = Some (Scored True (Some ex_picks) 1)"
proof -
  let ?bs = "ex_board_state\<lparr>prediction := Some ex_picks\<rparr>"
  have r: "finalLineup ex_revealed \<noteq> []" by (simp add: ex_revealed_def)
  have l: "finalLineup ex_revealed = [''g1'', ''g3'']" by (simp add: ex_revealed_def)
  have s: "score [''g1'', ''g3''] (Some ex_picks) = 1"
    by (simp add: score_def ex_picks_def)
  from score_counts_every_predicted_entry [of ex_revealed "''ann''" ?bs None,
      THEN conjunct1, THEN mp, OF conjI [OF r ex_revealed_ann]]
  have "map_option pub_prediction (getPublicState ex_revealed None ''ann'')
        = Some (Scored (prediction ?bs \<noteq> None) (prediction ?bs)
                  (score (finalLineup ex_revealed) (prediction ?bs)))" .
  then have "map_option pub_prediction (getPublicState ex_revealed None ''ann'')
       = Some (Scored True (Some ex_picks) 1)"
    by (simp add: l s)
  with r ex_revealed_ann show ?thesis by (intro conjI)
qed

section \<open>The init sent on connection\<close>

text \<open>
  C10: the connection callback itself, with no \<^verbatim>\<open>join\<close> received, emits to the new
  socket one \<^verbatim>\<open>init\<close> holding the members, the groups, the current \<^verbatim>\<open>finalLineup\<close> and
  the game state as shown to no requesting user: an entry for exactly the names of
  \<^verbatim>\<open>gameState\<close>, each with the board, the selected indices and the bingo count, and,
  while \<^verbatim>\<open>finalLineup\<close> is empty, the prediction reduced to the \<^verbatim>\<open>hasPredicted\<close> flag.
\<close>

theorem connection_emits_anonymous_init:
  "handle st Connect =
     (st, [SocketEmit (Init (members st) (groups st) (getPublicState st None) (finalLineup st))])
   \<and> dom (getPublicState st None) = dom (gameState st)
   \<and> (gameState st m = Some bs \<longrightarrow>
        map_option pub_board (getPublicState st None m) = Some (board bs)
        \<and> map_option pub_selectedIndices (getPublicState st None m) = Some (selectedIndices bs)
        \<and> map_option bingoCount (getPublicState st None m)
            = Some (calculateBingoCount (selectedIndices bs)))
   \<and> (finalLineup st = [] \<and> gameState st m = Some bs \<longrightarrow>
        map_option pub_prediction (getPublicState st None m) = Some (Flag (prediction bs \<noteq> None)))"
proof -
  have "dom (getPublicState st None) = dom (gameState st)"
    by (auto simp: getPublicState_def split: option.splits)
  then show ?thesis
    by (simp add: connection_def getPublicState_entry predictionData_masked)
qed

theorem connection_emits_anonymous_init_witness:
  "gameState ex_predicted ''ann'' = Some (ex_board_state\<lparr>prediction := Some ex_picks\<rparr>)
   \<and> finalLineup ex_predicted = []
   \<and> map_option pub_selectedIndices (getPublicState ex_predicted None ''ann'') = Some []
   \<and> map_option bingoCount (getPublicState ex_predicted None ''ann'') = Some 0
   \<and> map_option pub_prediction (getPublicState ex_predicted None ''ann'') = Some (Flag True)"
proof -
  let ?bs = "ex_board_state\<lparr>prediction := Some ex_picks\<rparr>"
  have f: "finalLineup ex_predicted = []" by (simp add: ex_predicted_def ex_state_def)
  have s: "selectedIndices ?bs = []" by (simp add: ex_board_state_def)
  note t = connection_emits_anonymous_init [of ex_predicted "''ann''" ?bs]
  note t3 = t [THEN conjunct2, THEN conjunct2, THEN conjunct1, THEN mp, OF ex_predicted_ann]
  from t3 [THEN conjunct2, THEN conjunct1]
  have c1: "map_option pub_selectedIndices (getPublicState ex_predicted None ''ann'')
            = Some (selectedIndices ?bs)" .
  from t3 [THEN conjunct2, THEN conjunct2]
  have c2: "map_option bingoCount (getPublicState ex_predicted None ''ann'')
            = Some (calculateBingoCount (selectedIndices ?bs))" .
  from t [THEN conjunct2, THEN conjunct2, THEN conjunct2, THEN mp,
      OF conjI [OF f ex_predicted_ann]]
  have c3: "map_option pub_prediction (getPublicState ex_predicted None ''ann'')
            = Some (Flag (prediction ?bs \<noteq> None))" .
  from c1 c2 c3 ex_predicted_ann f show ?thesis
    by (simp add: s bingo_empty)
qed

section \<open>The generated board\<close>

lemma swap_length: "length (swap xs i j) = length xs"
  by (simp add: swap_def)

lemma swap_mset: "i < length xs \<Longrightarrow> j < length xs \<Longrightarrow> mset (swap xs i j) = mset xs"
  unfolding swap_def by (rule mset_swap)

text \<open>The shuffle permutes its input, whatever is drawn within range.\<close>

lemma fisher_yates_mset:
  "\<forall>k. rnd k \<le> k \<Longrightarrow> n < length xs \<Longrightarrow> mset (fisher_yates rnd n xs) = mset xs"
proof (induction n arbitrary: xs)
  case 0
  then show ?case by simp
next
  case (Suc n)
  from Suc.prems have j: "rnd (Suc n) < length xs"
    by (meson le_less_trans)
  with Suc.prems have "mset (swap xs (Suc n) (rnd (Suc n))) = mset xs"
    by (simp add: swap_mset)
  moreover from Suc.prems have "n < length (swap xs (Suc n) (rnd (Suc n)))"
    by (simp add: swap_length)
  ultimately show ?case
    using Suc.IH [of "swap xs (Suc n) (rnd (Suc n))"] Suc.prems(1) by simp
qed

lemma fisher_yates_length:
  "\<forall>k. rnd k \<le> k \<Longrightarrow> n < length xs \<Longrightarrow> length (fisher_yates rnd n xs) = length xs"
  using fisher_yates_mset [of rnd n xs] by (metis size_mset)

lemma insert_free_space:
  assumes "length bt = 24"
  shows "length (take 12 bt @ [fs] @ drop 12 bt) = 25"
    and "(take 12 bt @ [fs] @ drop 12 bt) ! 12 = fs"
    and "take 12 (take 12 bt @ [fs] @ drop 12 bt) @ drop 13 (take 12 bt @ [fs] @ drop 12 bt) = bt"
  using assms by (simp_all add: nth_append)

text \<open>
  C9, as stated, fails in "duplicate-free": the pool is the list of the non-empty
  lines of the terms file, and a term listed twice can come onto a board twice.  From
  a pool of 24 lines \<open>A\<close> the 24 cells around the free space are all \<open>A\<close>.
\<close>

theorem new_member_board_duplicate_pool:
  "\<not> distinct (take 12 (new_member_board rnd_zero (replicate 24 ''A''))
                @ drop 13 (new_member_board rnd_zero (replicate 24 ''A'')))"
  by code_simp

text \<open>
  C9, amended: for any term pool of at least 24 terms (each draw \<open>j\<close> of the shuffle
  lying in \<open>0..i\<close>), a freshly generated board has exactly 25 entries with
  "FREE SPACE" at index 12, and the other 24 entries are taken from 24 different
  positions of the pool (a sub-multiset of it), so they are duplicate-free whenever the
  pool is; for a pool of fewer than 12 terms "FREE SPACE" is appended at the end
  instead of being inserted at index 12.
\<close>

theorem new_member_board_invariant:
  "((\<forall>i. rnd i \<le> i) \<and> length terms \<ge> 24 \<longrightarrow>
      length (new_member_board rnd terms) = 25
      \<and> new_member_board rnd terms ! 12 = ''FREE SPACE''
      \<and> mset (take 12 (new_member_board rnd terms) @ drop 13 (new_member_board rnd terms))
          \<subseteq># mset terms
      \<and> (distinct terms \<longrightarrow>
           distinct (take 12 (new_member_board rnd terms) @ drop 13 (new_member_board rnd terms))))
   \<and> (length terms < 12 \<longrightarrow> new_member_board rnd terms = terms @ [''FREE SPACE''])"
proof (intro conjI impI)
  assume h: "(\<forall>i. rnd i \<le> i) \<and> length terms \<ge> 24"
  let ?sh = "fisher_yates rnd (length terms - 1) terms"
  let ?bt = "take 24 ?sh"
  let ?b = "new_member_board rnd terms"
  from h have r: "\<forall>i. rnd i \<le> i" and l: "24 \<le> length terms" by simp_all
  from l have n: "length terms - 1 < length terms" by simp
  from r n have ms: "mset ?sh = mset terms" by (rule fisher_yates_mset)
  from r n have "length ?sh = length terms" by (rule fisher_yates_length)
  with l have len: "length ?bt = 24" by simp
  from l have b: "?b = take 12 ?bt @ [''FREE SPACE''] @ drop 12 ?bt"
    unfolding new_member_board_def Let_def using len by simp
  have others: "take 12 ?b @ drop 13 ?b = ?bt"
    unfolding b using len by (rule insert_free_space(3))
  show "length ?b = 25"
    unfolding b using len by (rule insert_free_space(1))
  show "?b ! 12 = ''FREE SPACE''"
    unfolding b using len by (rule insert_free_space(2))
  have "mset ?bt \<subseteq># mset ?sh"
    by (metis append_take_drop_id mset_append mset_subset_eq_add_left)
  with ms show "mset (take 12 ?b @ drop 13 ?b) \<subseteq># mset terms"
    unfolding others by simp
  assume "distinct terms"
  with ms have "distinct ?sh" by (metis mset_eq_imp_distinct_iff)
  then show "distinct (take 12 ?b @ drop 13 ?b)"
    unfolding others by (rule distinct_take)
next
  assume "length terms < 12"
  then show "new_member_board rnd terms = terms @ [''FREE SPACE'']"
    by (simp add: new_member_board_def)
qed

theorem new_member_board_invariant_witness:
  "(\<forall>i. rnd_zero i \<le> i) \<and> length ex_terms \<ge> 24 \<and> distinct ex_terms
   \<and> length (new_member_board rnd_zero ex_terms) = 25
   \<and> new_member_board rnd_zero ex_terms ! 12 = ''FREE SPACE''
   \<and> distinct (take 12 (new_member_board rnd_zero ex_terms)
                @ drop 13 (new_member_board rnd_zero ex_terms))
   \<and> length [''t01'', ''t02''] < (12::nat)
   \<and> new_member_board rnd_zero [''t01'', ''t02''] = [''t01'', ''t02'', ''FREE SPACE'']"
proof -
  have h: "(\<forall>i. rnd_zero i \<le> i) \<and> length ex_terms \<ge> 24"
    by (simp add: rnd_zero_def ex_terms_def)
  have d: "distinct ex_terms" by (simp add: ex_terms_def)
  have s: "length [''t01'', ''t02''] < (12::nat)" by simp
  note t1 = new_member_board_invariant [of rnd_zero ex_terms]
  note t2 = new_member_board_invariant [of rnd_zero "[''t01'', ''t02'']"]
  from t1 [THEN conjunct1, THEN mp, OF h]
  have c: "length (new_member_board rnd_zero ex_terms) = 25
      \<and> new_member_board rnd_zero ex_terms ! 12 = ''FREE SPACE''
      \<and> mset (take 12 (new_member_board rnd_zero ex_terms) @ drop 13 (new_member_board rnd_zero ex_terms))
          \<subseteq># mset ex_terms
      \<and> (distinct ex_terms \<longrightarrow>
           distinct (take 12 (new_member_board rnd_zero ex_terms) @ drop 13 (new_member_board rnd_zero ex_terms)))" .
  from t2 [THEN conjunct2, THEN mp, OF s]
  have c2: "new_member_board rnd_zero [''t01'', ''t02''] = [''t01'', ''t02''] @ [''FREE SPACE'']" .
  from h d c c2 s show ?thesis by simp
qed

end
